theory Spec2Isabelle
  imports Complex_Main "HOL-Library.Sublist"
begin

section \<open>Strings\<close>

text \<open>
  A review text is a \<^typ>\<open>string\<close>, a character being a code unit below 256 (Latin-1).
  There \<open>toLowerCase\<close> maps \<open>A\<close>..\<open>Z\<close> and the capitals \<open>U+00C0\<close>..\<open>U+00DE\<close> (without the
  multiplication sign \<open>U+00D7\<close>) to the letter 32 places further and leaves every other
  character alone, and \<open>trim\<close> strips tab, line feed, vertical tab, form feed, carriage
  return, space and the no-break space \<open>U+00A0\<close>. The score and the confidence of the
  source are IEEE doubles; they are modelled by exact rationals (\<^typ>\<open>rat\<close>), counters by
  \<^typ>\<open>nat\<close>.
\<close>

definition toLowerChar :: "char \<Rightarrow> char" where
  "toLowerChar c =
     (let n = (of_char c :: nat)
      in if (65 \<le> n \<and> n \<le> 90) \<or> (192 \<le> n \<and> n \<le> 222 \<and> n \<noteq> 215) then char_of (n + 32)
         else c)"

definition toLowerCase :: "string \<Rightarrow> string" where
  "toLowerCase s = map toLowerChar s"

fun startsWith :: "string \<Rightarrow> string \<Rightarrow> bool" where
  "startsWith s [] = True"
| "startsWith [] (w # ws) = False"
| "startsWith (c # cs) (w # ws) = (c = w \<and> startsWith cs ws)"

text \<open>\<open>String.prototype.includes\<close>: \<open>includes_str s w\<close> holds when \<open>w\<close> occurs in \<open>s\<close>.\<close>

fun includes_str :: "string \<Rightarrow> string \<Rightarrow> bool" where
  "includes_str [] w = startsWith [] w"
| "includes_str (c # cs) w = (startsWith (c # cs) w \<or> includes_str cs w)"

text \<open>
  \<open>String.prototype.split\<close> with a one-character separator: \<open>splitOn sep cur s\<close> is the
  list of pieces of \<open>s\<close>, the first of them prefixed by the piece \<open>cur\<close> read so far.
  The empty string splits into one empty piece.
\<close>

fun splitOn :: "char \<Rightarrow> string \<Rightarrow> string \<Rightarrow> string list" where
  "splitOn sep cur [] = [cur]"
| "splitOn sep cur (c # cs) =
     (if c = sep then cur # splitOn sep [] cs else splitOn sep (cur @ [c]) cs)"

definition split_space :: "string \<Rightarrow> string list" where
  "split_space s = splitOn CHR '' '' [] s"

definition isSentenceEnd :: "char \<Rightarrow> bool" where
  "isSentenceEnd c = (c = CHR ''.'' \<or> c = CHR ''!'' \<or> c = CHR ''?'')"

text \<open>\<open>text.split(/[.!?]+/)\<close>: a maximal run of sentence marks is one separator.\<close>

function splitSentences :: "string \<Rightarrow> string \<Rightarrow> string list" where
  "splitSentences cur [] = [cur]"
| "splitSentences cur (c # cs) =
     (if isSentenceEnd c then cur # splitSentences [] (dropWhile isSentenceEnd cs)
      else splitSentences (cur @ [c]) cs)"
  by pat_completeness auto
termination
  by (relation "measure (\<lambda>(cur, s). length s)")
     (auto simp: less_Suc_eq_le length_dropWhile_le)

definition isWhitespace :: "char \<Rightarrow> bool" where
  "isWhitespace c =
     (let n = (of_char c :: nat) in (9 \<le> n \<and> n \<le> 13) \<or> n = 32 \<or> n = 160)"

definition trim :: "string \<Rightarrow> string" where
  "trim s = rev (dropWhile isWhitespace (rev (dropWhile isWhitespace s)))"

section \<open>Classification: \<open>analyze-sentiment/index.ts\<close>\<close>

datatype sentiment = Positive | Negative | Neutral

record metadata =
  language :: string
  model_version :: string
  processing_time_ms :: int
  positive_words_found :: nat
  negative_words_found :: nat
  total_words_analyzed :: nat

record SentimentResult =
  overall_sentiment :: sentiment
  sentiment_score :: rat
  confidence_score :: rat
  key_topics :: "string list"
  key_phrases :: "string list"
  analysis_metadata :: metadata

definition positiveWords :: "string list" where
  "positiveWords =
     [''amazing'', ''excellent'', ''great'', ''good'', ''wonderful'', ''fantastic'',
      ''outstanding'', ''perfect'', ''love'', ''enjoy'', ''delicious'', ''friendly'',
      ''helpful'', ''professional'', ''quick'', ''fast'', ''clean'', ''beautiful'',
      ''comfortable'', ''recommend'', ''best'']"

definition negativeWords :: "string list" where
  "negativeWords =
     [''terrible'', ''awful'', ''horrible'', ''bad'', ''poor'', ''disappointing'', ''worst'',
      ''hate'', ''disgusting'', ''rude'', ''slow'', ''dirty'', ''expensive'', ''overpriced'',
      ''cold'', ''burnt'', ''wrong'', ''broken'', ''uncomfortable'', ''avoid'', ''never'']"

text \<open>
  The loop \<open>words.forEach(word => { if (textLower.includes(word)) count++ })\<close>, started
  at \<open>count = 0\<close>.
\<close>

definition countHits :: "string list \<Rightarrow> string \<Rightarrow> nat" where
  "countHits words textLower =
     fold (\<lambda>word count. if includes_str textLower word then count + 1 else count) words 0"

definition topicKeywords :: "(string \<times> string list) list" where
  "topicKeywords =
     [(''service'', [''service'', ''staff'', ''employee'', ''server'', ''waiter'', ''waitress'',
                     ''cashier'']),
      (''food'', [''food'', ''meal'', ''dish'', ''cuisine'', ''cooking'', ''chef'', ''kitchen'']),
      (''coffee'', [''coffee'', ''espresso'', ''latte'', ''cappuccino'', ''brew'', ''bean'']),
      (''atmosphere'', [''atmosphere'', ''ambiance'', ''environment'', ''decor'', ''music'',
                        ''lighting'']),
      (''price'', [''price'', ''cost'', ''expensive'', ''cheap'', ''affordable'', ''value'',
                   ''worth'']),
      (''location'', [''location'', ''place'', ''area'', ''neighborhood'', ''parking'',
                      ''access'']),
      (''cleanliness'', [''clean'', ''dirty'', ''hygiene'', ''sanitary'', ''messy'', ''tidy'']),
      (''speed'', [''fast'', ''slow'', ''quick'', ''wait'', ''time'', ''efficient'',
                   ''delayed''])]"

text \<open>\<open>Set.prototype.add\<close> on a set kept in insertion order.\<close>

definition set_add :: "string \<Rightarrow> string list \<Rightarrow> string list" where
  "set_add x xs = (if x \<in> set xs then xs else xs @ [x])"

definition extractKeyTopics :: "string \<Rightarrow> string list" where
  "extractKeyTopics text =
     (let textLower = toLowerCase text
      in fold (\<lambda>(topic, keywords) topics.
                 fold (\<lambda>keyword topics.
                         if includes_str textLower keyword then set_add topic topics
                         else topics)
                      keywords topics)
              topicKeywords [])"

definition extractKeyPhrases :: "string \<Rightarrow> string list" where
  "extractKeyPhrases text =
     (let sentences = filter (\<lambda>s. length (trim s) > 0) (splitSentences [] text);
          phrases =
            fold (\<lambda>sentence phrases.
                    let words = split_space (trim sentence)
                    in if length words \<ge> 3 \<and> length words \<le> 8
                       then phrases @ [trim sentence] else phrases)
                 sentences []
      in take 5 phrases)"

text \<open>
  \<open>analyzeSentiment\<close>. The source draws \<open>Math.random()\<close> once, for the processing time
  of the metadata. The parameter \<open>rnd\<close> is the value of \<open>Math.floor(Math.random() * 200)\<close>
  in that call: an integer, computed by the engine in double arithmetic from the number
  it draws.
\<close>

definition analyzeSentiment :: "int \<Rightarrow> string \<Rightarrow> SentimentResult" where
  "analyzeSentiment rnd text =
     (let textLower = toLowerCase text;
          positiveCount = countHits positiveWords textLower;
          negativeCount = countHits negativeWords textLower;
          totalWords = positiveCount + negativeCount;
          sentimentScore =
            (if totalWords > 0
             then (of_nat positiveCount - of_nat negativeCount) / of_nat totalWords
             else 0);
          overallSentiment =
            (if totalWords > 0
             then (if sentimentScore > 2 / 10 then Positive
                   else if sentimentScore < - (2 / 10) then Negative
                   else Neutral)
             else Neutral);
          keyTopics = extractKeyTopics text;
          keyPhrases = extractKeyPhrases text
      in \<lparr> overall_sentiment = overallSentiment,
           sentiment_score = max (- 1) (min 1 sentimentScore),
           confidence_score = min (95 / 100) (5 / 10 + \<bar>sentimentScore\<bar> * (3 / 10)),
           key_topics = keyTopics,
           key_phrases = keyPhrases,
           analysis_metadata =
             \<lparr> language = ''en'',
               model_version = ''1.0'',
               processing_time_ms = rnd + 100,
               positive_words_found = positiveCount,
               negative_words_found = negativeCount,
               total_words_analyzed = length (split_space text) \<rparr> \<rparr>)"

text \<open>
  A tag built by \<open>generateReviewTags\<close>; \<open>tag_confidence\<close> is the field
  \<open>confidence_score\<close> of the source's tag objects.
\<close>

record ReviewTag =
  tag_name :: string
  tag_category :: string
  tag_confidence :: rat

text \<open>The body of the \<open>forEach\<close> of \<open>generateReviewTags\<close>: the tag of one topic.\<close>

definition topicTag :: "SentimentResult \<Rightarrow> string \<Rightarrow> ReviewTag" where
  "topicTag sentimentResult topic =
     (let positive = (overall_sentiment sentimentResult = Positive);
          (category, tagName) =
            (if topic = ''service'' \<or> topic = ''staff''
               then (''staff'', if positive then ''friendly staff'' else ''poor service'')
             else if topic = ''food'' \<or> topic = ''coffee''
               then (''product'', if positive then ''quality food'' else ''poor food'')
             else if topic = ''atmosphere''
               then (''ambiance'', if positive then ''good atmosphere'' else ''poor atmosphere'')
             else if topic = ''price''
               then (''value'', if positive then ''good value'' else ''overpriced'')
             else if topic = ''speed''
               then (''service'', if positive then ''fast service'' else ''slow service'')
             else (''other'', topic))
      in \<lparr> tag_name = tagName, tag_category = category,
           tag_confidence = confidence_score sentimentResult \<rparr>)"

definition reviewTags :: "SentimentResult \<Rightarrow> ReviewTag list" where
  "reviewTags sentimentResult =
     fold (\<lambda>topic tags. tags @ [topicTag sentimentResult topic])
          (key_topics sentimentResult) []"

section \<open>The store: tables of the schema\<close>

text \<open>
  The tables the two functions touch, with the columns they use. A UUID is a natural
  number, and \<open>uuid_generate_v4()\<close> is a counter (\<open>next_uuid\<close>). A timestamp is a number
  of milliseconds (\<open>Date.getTime()\<close>). \<open>biz_id\<close> and \<open>review_id\<close> are the columns \<open>id\<close>
  of \<open>businesses\<close> and \<open>reviews\<close>. The \<open>console\<close> collects what \<open>console.error\<close> prints.
  The rounding of \<open>DECIMAL(3,2)\<close> columns is not modelled. \<open>db_accepts\<close> is a parameter of the
  model, which no function changes: it says of the values of a fetched review whether
  the database server takes them for the columns of \<open>reviews\<close>, that is, converts them to
  the types of the columns and finds the required ones present (the syntax of the
  timestamp \<open>review_date\<close>, which the source passes on as the platform gave it, the
  encoding of the texts). An insert into \<open>reviews\<close> fails when the server does not accept
  the values or a constraint of the schema refuses the row, and only then.
\<close>

type_synonym uuid = nat

text \<open>
  A platform is the string of the request and of the column \<open>platform\<close>;
  \<open>review_platforms\<close> are the values that the check of the column admits.
\<close>

type_synonym platform = string

definition review_platforms :: "platform list" where
  "review_platforms = [''google'', ''yelp'', ''facebook'', ''tripadvisor'']"

datatype processing_status = Pending | Processing | Completed | Failed

record business =
  biz_id :: uuid
  google_place_id :: "string option"
  yelp_business_id :: "string option"
  last_review_fetch :: "int option"

record ReviewData =
  platform_review_id :: string
  reviewer_name :: string
  reviewer_avatar :: "string option"
  rating :: int
  review_text :: string
  review_date :: string
  review_url :: string

text \<open>
  A row of \<open>reviews\<close>: the key columns, the columns copied from the fetched review
  (\<open>review_data\<close>) and the two processing columns.
\<close>

record review =
  review_id :: uuid
  business_id :: uuid
  platform :: platform
  review_data :: ReviewData
  is_processed :: bool
  processing_status :: processing_status

record state =
  businesses :: "business list"
  reviews :: "review list"
  sentiment_analysis :: "(uuid \<times> SentimentResult) list"
  review_tags :: "(uuid \<times> ReviewTag) list"
  next_uuid :: uuid
  console :: "string list"
  db_accepts :: "ReviewData \<Rightarrow> bool"

datatype db_error = InvalidValue | CheckViolation | UniqueViolation | ForeignKeyViolation

text \<open>The rows of \<open>reviews\<close> with the dedup key \<open>(business_id, platform, platform_review_id)\<close>.\<close>

definition reviews_with_key :: "state \<Rightarrow> uuid \<Rightarrow> platform \<Rightarrow> string \<Rightarrow> review list" where
  "reviews_with_key st b p rid =
     filter (\<lambda>r. business_id r = b \<and> platform r = p
                 \<and> platform_review_id (review_data r) = rid)
            (reviews st)"

text \<open>
  \<open>.select('id').eq(...).eq(...).eq(...).single()\<close>: the data is the row when exactly
  one row matches, and null otherwise.
\<close>

definition select_review :: "state \<Rightarrow> uuid \<Rightarrow> platform \<Rightarrow> string \<Rightarrow> review option" where
  "select_review st b p rid =
     (case reviews_with_key st b p rid of [r] \<Rightarrow> Some r | _ \<Rightarrow> None)"

text \<open>
  \<open>.insert({...}).select().single()\<close> on \<open>reviews\<close>. The insert is refused when the
  server does not accept the values, and by the constraints of the table:
  \<open>CHECK (rating >= 1 AND rating <= 5)\<close>, \<open>CHECK (platform IN (...))\<close>,
  \<open>UNIQUE(business_id, platform, platform_review_id)\<close> and the foreign key on \<open>business_id\<close>.
\<close>

definition insert_review ::
  "state \<Rightarrow> uuid \<Rightarrow> platform \<Rightarrow> ReviewData \<Rightarrow> bool \<Rightarrow> processing_status
     \<Rightarrow> db_error + (review \<times> state)" where
  "insert_review st b p rd isp ps =
     (if \<not> db_accepts st rd then Inl InvalidValue
      else if rating rd < 1 \<or> 5 < rating rd \<or> p \<notin> set review_platforms then Inl CheckViolation
      else if reviews_with_key st b p (platform_review_id rd) \<noteq> [] then Inl UniqueViolation
      else if filter (\<lambda>bz. biz_id bz = b) (businesses st) = [] then Inl ForeignKeyViolation
      else (let row = \<lparr> review_id = next_uuid st, business_id = b, platform = p,
                         review_data = rd, is_processed = isp, processing_status = ps \<rparr>
            in Inr (row, st\<lparr> reviews := reviews st @ [row],
                             next_uuid := next_uuid st + 1 \<rparr>)))"

text \<open>\<open>.update({...}).eq('id', rid)\<close> on \<open>reviews\<close>.\<close>

definition update_review :: "state \<Rightarrow> uuid \<Rightarrow> (review \<Rightarrow> review) \<Rightarrow> state" where
  "update_review st rid f =
     st\<lparr> reviews := map (\<lambda>r. if review_id r = rid then f r else r) (reviews st) \<rparr>"

text \<open>\<open>.select('*').eq('id', b).single()\<close> on \<open>businesses\<close>.\<close>

definition select_business :: "state \<Rightarrow> uuid \<Rightarrow> business option" where
  "select_business st b =
     (case filter (\<lambda>bz. biz_id bz = b) (businesses st) of [bz] \<Rightarrow> Some bz | _ \<Rightarrow> None)"

definition update_business :: "state \<Rightarrow> uuid \<Rightarrow> (business \<Rightarrow> business) \<Rightarrow> state" where
  "update_business st b f =
     st\<lparr> businesses := map (\<lambda>bz. if biz_id bz = b then f bz else bz) (businesses st) \<rparr>"

text \<open>
  The insert into \<open>sentiment_analysis\<close>, refused by the foreign key on \<open>review_id\<close> and by
  the range checks of the score and of the confidence.
\<close>

definition insert_sentiment ::
  "state \<Rightarrow> uuid \<Rightarrow> SentimentResult \<Rightarrow> db_error + ((uuid \<times> SentimentResult) \<times> state)" where
  "insert_sentiment st rid res =
     (if filter (\<lambda>r. review_id r = rid) (reviews st) = [] then Inl ForeignKeyViolation
      else if sentiment_score res < - 1 \<or> 1 < sentiment_score res
              \<or> confidence_score res < 0 \<or> 1 < confidence_score res
        then Inl CheckViolation
      else Inr ((rid, res),
                st\<lparr> sentiment_analysis := sentiment_analysis st @ [(rid, res)] \<rparr>))"

definition tag_categories :: "string list" where
  "tag_categories = [''service'', ''product'', ''ambiance'', ''staff'', ''value'', ''other'']"

text \<open>
  The insert of a list of rows into \<open>review_tags\<close>: all the rows or none. Its error is
  not read by the caller, so the result is the state.
\<close>

definition insert_tags :: "state \<Rightarrow> (uuid \<times> ReviewTag) list \<Rightarrow> state" where
  "insert_tags st rows =
     (if list_all (\<lambda>(rid, t). filter (\<lambda>r. review_id r = rid) (reviews st) \<noteq> []
                              \<and> tag_category t \<in> set tag_categories
                              \<and> 0 \<le> tag_confidence t \<and> tag_confidence t \<le> 1) rows
      then st\<lparr> review_tags := review_tags st @ rows \<rparr>
      else st)"

section \<open>HTTP responses\<close>

text \<open>
  A response is its status and its JSON body: a plain text (the answer to \<open>OPTIONS\<close>), an
  object \<open>{error}\<close>, the object \<open>{message, last_fetch}\<close> of a skipped fetch, the object
  \<open>{message, reviews_processed, platform, business_id}\<close> of a fetch, and the object
  \<open>{message, sentiment_analysis, review_id}\<close> of a classification.
\<close>

datatype body =
    Text string
  | Error string
  | Skipping string int
  | Fetched string nat platform uuid
  | Analyzed string "uuid \<times> SentimentResult" uuid

type_synonym response = "nat \<times> body"

section \<open>Classification handler: \<open>analyze-sentiment/index.ts\<close>\<close>

definition generateReviewTags :: "state \<Rightarrow> uuid \<Rightarrow> SentimentResult \<Rightarrow> state" where
  "generateReviewTags st reviewId sentimentResult =
     (let tags = reviewTags sentimentResult
      in if length tags > 0 then insert_tags st (map (\<lambda>tag. (reviewId, tag)) tags) else st)"

text \<open>
  The handler of the classification function. \<open>req_body\<close> is the parsed JSON body
  (\<open>None\<close> when \<open>req.json()\<close> throws) with its fields \<open>review_id\<close> and \<open>review_text\<close>
  (\<open>None\<close> when the field is missing or null). An exception ends in the \<open>catch\<close>
  block: a line on the console and the response 500.
\<close>

definition analyze_sentiment_handler ::
  "int \<Rightarrow> state \<Rightarrow> string \<Rightarrow> (uuid option \<times> string option) option \<Rightarrow> response \<times> state" where
  "analyze_sentiment_handler rnd st req_method req_body =
     (if req_method = ''OPTIONS'' then ((200, Text ''ok''), st)
      else case req_body of
        None \<Rightarrow>
          ((500, Error ''Internal server error''),
           st\<lparr> console := console st @ [''Error analyzing sentiment:''] \<rparr>)
      | Some (review_id_opt, review_text_opt) \<Rightarrow>
          (if review_id_opt = None \<or> review_text_opt = None \<or> review_text_opt = Some []
           then ((400, Error ''Missing required fields: review_id and review_text''), st)
           else
             (let rid = the review_id_opt;
                  text = the review_text_opt;
                  st1 = update_review st rid (\<lambda>r. r\<lparr> processing_status := Processing \<rparr>);
                  sentimentResult = analyzeSentiment rnd text
              in case insert_sentiment st1 rid sentimentResult of
                   Inl insertError \<Rightarrow>
                     (let st2 = update_review st1 rid
                                  (\<lambda>r. r\<lparr> is_processed := False,
                                           processing_status := Failed \<rparr>)
                      in ((500, Error ''Internal server error''),
                          st2\<lparr> console := console st2 @ [''Error analyzing sentiment:''] \<rparr>))
                 | Inr (sentimentAnalysis, st2) \<Rightarrow>
                     (let st3 = generateReviewTags st2 rid sentimentResult;
                          st4 = update_review st3 rid
                                  (\<lambda>r. r\<lparr> is_processed := True,
                                           processing_status := Completed \<rparr>)
                      in ((200, Analyzed ''Sentiment analysis completed successfully''
                                   sentimentAnalysis rid),
                          st4)))))"

section \<open>Ingestion: \<open>fetch-reviews/index.ts\<close>\<close>

text \<open>
  The loop of \<open>processAndStoreReviews\<close>; \<open>processedReviews\<close> is the list built so far.
  A row is pushed as the insert returned it, before the update that follows.
\<close>

fun processAndStoreLoop ::
  "state \<Rightarrow> uuid \<Rightarrow> platform \<Rightarrow> ReviewData list \<Rightarrow> review list \<Rightarrow> review list \<times> state" where
  "processAndStoreLoop st businessId p [] processedReviews = (processedReviews, st)"
| "processAndStoreLoop st businessId p (review # rest) processedReviews =
     (case select_review st businessId p (platform_review_id review) of
        Some existingReview \<Rightarrow> processAndStoreLoop st businessId p rest processedReviews
      | None \<Rightarrow>
          (case insert_review st businessId p review False Pending of
             Inl insertError \<Rightarrow>
               processAndStoreLoop (st\<lparr> console := console st @ [''Error inserting review:''] \<rparr>)
                 businessId p rest processedReviews
           | Inr (newReview, st1) \<Rightarrow>
               processAndStoreLoop
                 (update_review st1 (review_id newReview)
                    (\<lambda>r. r\<lparr> is_processed := True, processing_status := Completed \<rparr>))
                 businessId p rest (processedReviews @ [newReview])))"

definition processAndStoreReviews ::
  "state \<Rightarrow> uuid \<Rightarrow> platform \<Rightarrow> ReviewData list \<Rightarrow> review list \<times> state" where
  "processAndStoreReviews st businessId p revs = processAndStoreLoop st businessId p revs []"

text \<open>
  The handler of the ingestion function. The two fetchers of the source are mocks that
  build two reviews from the clock; the handler is modelled over any fetchers
  \<open>fetchGoogleReviews\<close> and \<open>fetchYelpReviews\<close>, whose result is \<open>Inl\<close> when the promise is
  rejected. \<open>now\<close> is the clock read by the freshness check and \<open>now_update\<close> the clock
  read for the new timestamp. \<open>req_body\<close> is the parsed JSON body (\<open>None\<close> when
  \<open>req.json()\<close> throws) with its fields \<open>business_id\<close>, \<open>platform\<close> and \<open>force_refresh\<close>
  (\<open>None\<close> when the field is missing or null). The body is not validated: the platform
  is any string, and the list \<open>reviews\<close> stays empty when it is neither \<open>google\<close> nor \<open>yelp\<close>.
\<close>

definition fetch_reviews_handler ::
  "(string option \<Rightarrow> string + ReviewData list) \<Rightarrow> (string option \<Rightarrow> string + ReviewData list)
     \<Rightarrow> int \<Rightarrow> int \<Rightarrow> state \<Rightarrow> string
     \<Rightarrow> (uuid option \<times> platform option \<times> bool option) option \<Rightarrow> response \<times> state" where
  "fetch_reviews_handler fetchGoogleReviews fetchYelpReviews now now_update st req_method req_body =
     (if req_method = ''OPTIONS'' then ((200, Text ''ok''), st)
      else case req_body of
        None \<Rightarrow>
          ((500, Error ''Internal server error''),
           st\<lparr> console := console st @ [''Error fetching reviews:''] \<rparr>)
      | Some (business_id_opt, platform_opt, force_refresh_opt) \<Rightarrow>
          (if business_id_opt = None \<or> platform_opt = None \<or> platform_opt = Some []
           then ((400, Error ''Missing required fields: business_id and platform''), st)
           else
             (let b = the business_id_opt;
                  p = the platform_opt;
                  force_refresh = (case force_refresh_opt of None \<Rightarrow> False | Some f \<Rightarrow> f)
              in case select_business st b of
                   None \<Rightarrow> ((404, Error ''Business not found''), st)
                 | Some business \<Rightarrow>
                     (if \<not> force_refresh \<and> last_review_fetch business \<noteq> None
                         \<and> (of_int (now - the (last_review_fetch business)) :: rat)
                               / (1000 * 60 * 60) < 24
                      then ((200, Skipping ''Reviews recently fetched, skipping''
                                    (the (last_review_fetch business))),
                            st)
                      else
                        (case (if p = ''google''
                                 then fetchGoogleReviews (google_place_id business)
                               else if p = ''yelp''
                                 then fetchYelpReviews (yelp_business_id business)
                               else Inr []) of
                           Inl error \<Rightarrow>
                             ((500, Error ''Internal server error''),
                              st\<lparr> console := console st @ [''Error fetching reviews:''] \<rparr>)
                         | Inr revs \<Rightarrow>
                             (let (processedReviews, st1) = processAndStoreReviews st b p revs;
                                  st2 = update_business st1 b
                                          (\<lambda>bz. bz\<lparr> last_review_fetch := Some now_update \<rparr>)
                              in ((200, Fetched ''Reviews fetched successfully''
                                          (length processedReviews) p b),
                                  st2)))))))"

section \<open>Notions used in the statements\<close>

text \<open>
  The quotient that \<open>analyzeSentiment\<close> computes from the two counters, and leaves at
  \<open>0\<close> when both are \<open>0\<close>.
\<close>

definition hit_ratio :: "nat \<Rightarrow> nat \<Rightarrow> rat" where
  "hit_ratio p n = (if 0 < p + n then (of_nat p - of_nat n) / of_nat (p + n) else 0)"

text \<open>
  The score as the specification words it: the hits of a lexicon are the occurrences of
  its terms in the lowercased text, an occurrence being a position at which the term
  starts; the score is \<open>0\<close> without any hit and otherwise the clamped quotient.
\<close>

fun spec_occurrences :: "string \<Rightarrow> string \<Rightarrow> nat" where
  "spec_occurrences w [] = 0"
| "spec_occurrences w (c # cs) =
     (if startsWith (c # cs) w then 1 else 0) + spec_occurrences w cs"

definition spec_hits :: "string list \<Rightarrow> string \<Rightarrow> nat" where
  "spec_hits lexicon textLower = sum_list (map (\<lambda>w. spec_occurrences w textLower) lexicon)"

definition spec_score :: "string \<Rightarrow> rat" where
  "spec_score text =
     (let positiveHits = spec_hits positiveWords (toLowerCase text);
          negativeHits = spec_hits negativeWords (toLowerCase text)
      in if positiveHits + negativeHits = 0 then 0
         else max (- 1) (min 1 ((of_nat positiveHits - of_nat negativeHits)
                                  / of_nat (positiveHits + negativeHits))))"

text \<open>The dedup key of a row of \<open>reviews\<close>.\<close>

definition review_key :: "review \<Rightarrow> uuid \<times> platform \<times> string" where
  "review_key r = (business_id r, platform r, platform_review_id (review_data r))"

text \<open>
  The constraint \<open>UNIQUE(business_id, platform, platform_review_id)\<close> holds in
  a state.
\<close>

definition unique_ok :: "state \<Rightarrow> bool" where
  "unique_ok st = distinct (map review_key (reviews st))"

text \<open>
  A fetched review that the loop of \<open>processAndStoreReviews\<close> cannot store in
  a state: a row with its key exists already (the lookup or the uniqueness constraint
  stops it), or a check or the foreign key refuses the insert.
\<close>

definition blocked :: "state \<Rightarrow> uuid \<Rightarrow> platform \<Rightarrow> ReviewData \<Rightarrow> bool" where
  "blocked st b p r =
     (reviews_with_key st b p (platform_review_id r) \<noteq> []
      \<or> \<not> db_accepts st r \<or> rating r < 1 \<or> 5 < rating r \<or> p \<notin> set review_platforms
      \<or> filter (\<lambda>bz. biz_id bz = b) (businesses st) = [])"

text \<open>
  The row that the insert of \<open>processAndStoreReviews\<close> returns for a fetched
  review.
\<close>

definition inserted_row :: "state \<Rightarrow> uuid \<Rightarrow> platform \<Rightarrow> ReviewData \<Rightarrow> review" where
  "inserted_row st b p r =
     \<lparr> review_id = next_uuid st, business_id = b, platform = p, review_data = r,
       is_processed = False, processing_status = Pending \<rparr>"

text \<open>The state after that insert and the update of the new row that follows it in the loop.\<close>

definition after_insert :: "state \<Rightarrow> uuid \<Rightarrow> platform \<Rightarrow> ReviewData \<Rightarrow> state" where
  "after_insert st b p r =
     update_review
       (st\<lparr> reviews := reviews st @ [inserted_row st b p r], next_uuid := next_uuid st + 1 \<rparr>)
       (next_uuid st)
       (\<lambda>r. r\<lparr> is_processed := True, processing_status := Completed \<rparr>)"

text \<open>The state after the \<open>console.error\<close> of a failed insert.\<close>

definition log_insert_error :: "state \<Rightarrow> state" where
  "log_insert_error st = st\<lparr> console := console st @ [''Error inserting review:''] \<rparr>"

text \<open>The update of the handler on the row of the business.\<close>

definition stamp :: "int \<Rightarrow> business \<Rightarrow> business" where
  "stamp t = (\<lambda>bz. bz\<lparr> last_review_fetch := Some t \<rparr>)"

text \<open>
  The reviews the handler gets for a platform: the result of the fetcher it calls on the
  platform identifier of the business, and no review, without any call, for a platform
  that is neither \<open>google\<close> nor \<open>yelp\<close>.
\<close>

definition fetch_for ::
  "(string option \<Rightarrow> string + ReviewData list) \<Rightarrow> (string option \<Rightarrow> string + ReviewData list)
     \<Rightarrow> platform \<Rightarrow> business \<Rightarrow> string + ReviewData list" where
  "fetch_for fetchGoogleReviews fetchYelpReviews p bz =
     (if p = ''google'' then fetchGoogleReviews (google_place_id bz)
      else if p = ''yelp'' then fetchYelpReviews (yelp_business_id bz)
      else Inr [])"

text \<open>
  The freshness test of the handler: not forced, a last fetch is recorded, and it is less
  than 24 hours before \<open>now\<close>.
\<close>

definition is_fresh :: "int \<Rightarrow> bool option \<Rightarrow> business \<Rightarrow> bool" where
  "is_fresh now force bz =
     (force \<noteq> Some True \<and> last_review_fetch bz \<noteq> None
      \<and> (of_int (now - the (last_review_fetch bz)) :: rat) / (1000 * 60 * 60) < 24)"

text \<open>
  A row returned by \<open>processAndStoreReviews\<close>, against the state it returns:
  the returned row is pending and unprocessed, a row with its identifier is stored, and
  every stored row with its identifier is completed and processed.
\<close>

definition pending_then_completed :: "state \<Rightarrow> review \<Rightarrow> bool" where
  "pending_then_completed st nr =
     (processing_status nr = Pending \<and> \<not> is_processed nr
      \<and> list_ex (\<lambda>row. review_id row = review_id nr) (reviews st)
      \<and> list_all (\<lambda>row. review_id row = review_id nr
                          \<longrightarrow> processing_status row = Completed \<and> is_processed row)
                   (reviews st))"

text \<open>
  Sample data: a business without a recorded fetch and no review, in a store whose server
  accepts the values of a review dated \<open>2023-11-14T22:13:20.000Z\<close>; a review as the Google
  mock of the source builds it; a second review whose rating \<open>0\<close> violates the check of
  the table; the state with the first review stored and pending.
\<close>

definition sample_review :: ReviewData where
  "sample_review =
     \<lparr> platform_review_id = ''google_1700000000000_1'', reviewer_name = ''John Doe'',
       reviewer_avatar = None, rating = 5,
       review_text = ''Great service and amazing food! Highly recommend this place.'',
       review_date = ''2023-11-14T22:13:20.000Z'',
       review_url = ''https://maps.google.com/place/p1/review/1'' \<rparr>"

definition sample_bad_review :: ReviewData where
  "sample_bad_review =
     sample_review\<lparr> platform_review_id := ''google_1700000000000_2'', rating := 0 \<rparr>"

definition sample_state :: state where
  "sample_state =
     \<lparr> businesses = [\<lparr> biz_id = 1, google_place_id = Some ''p1'', yelp_business_id = None,
                        last_review_fetch = None \<rparr>],
       reviews = [], sentiment_analysis = [], review_tags = [], next_uuid = 10,
       console = [], db_accepts = (\<lambda>rd. review_date rd = ''2023-11-14T22:13:20.000Z'') \<rparr>"

definition sample_pending_state :: state where
  "sample_pending_state =
     sample_state\<lparr> reviews := [inserted_row sample_state 1 ''google'' sample_review],
                   next_uuid := 11 \<rparr>"

section \<open>Lemmas on the classification\<close>

lemma startsWith_prefix: "startsWith s w \<longleftrightarrow> prefix w s"
  by (induction s w rule: startsWith.induct) auto

lemma includes_str_sublist: "includes_str s w \<longleftrightarrow> sublist w s"
proof (induction s)
  case Nil
  then show ?case by (cases w) auto
next
  case (Cons c cs)
  then show ?case by (simp add: startsWith_prefix sublist_Cons_right)
qed

lemma fold_count:
  "fold (\<lambda>word count. if P word then count + 1 else count) ws (k::nat)
     = k + length (filter P ws)"
  by (induction ws arbitrary: k) auto

lemma countHits_filter: "countHits ws t = length (filter (includes_str t) ws)"
  by (simp add: countHits_def fold_count)

lemma distinct_positiveWords: "distinct positiveWords"
  by (simp add: positiveWords_def)

lemma distinct_negativeWords: "distinct negativeWords"
  by (simp add: negativeWords_def)

lemma countHits_card:
  assumes "distinct ws"
  shows "countHits ws t = card {w \<in> set ws. sublist w t}"
proof -
  have "{w \<in> set ws. sublist w t} = {w. includes_str t w} \<inter> set ws"
    by (auto simp: includes_str_sublist)
  with assms show ?thesis
    by (simp add: countHits_filter distinct_length_filter)
qed

lemma hit_ratio_bounds: "- 1 \<le> hit_ratio p n" "hit_ratio p n \<le> 1"
proof -
  define d :: rat where "d = of_nat (p + n)"
  have le: "- d \<le> of_nat p - of_nat n" "of_nat p - of_nat n \<le> d"
    by (simp_all add: d_def)
  show "- 1 \<le> hit_ratio p n"
  proof (cases "0 < p + n")
    case True
    then have "0 < d" unfolding d_def of_nat_0_less_iff .
    with le(1) have "- 1 \<le> (of_nat p - of_nat n) / d"
      by (simp add: pos_le_divide_eq)
    with True show ?thesis by (simp add: hit_ratio_def d_def)
  qed (simp add: hit_ratio_def)
  show "hit_ratio p n \<le> 1"
  proof (cases "0 < p + n")
    case True
    then have "0 < d" unfolding d_def of_nat_0_less_iff .
    with le(2) have "(of_nat p - of_nat n) / d \<le> 1"
      by (simp add: pos_divide_le_eq)
    with True show ?thesis by (simp add: hit_ratio_def d_def)
  qed (simp add: hit_ratio_def)
qed

lemma analyzeSentiment_rnd:
  "analyzeSentiment rnd text =
     (analyzeSentiment 0 text)
       \<lparr> analysis_metadata :=
           (analysis_metadata (analyzeSentiment 0 text))
             \<lparr> processing_time_ms := rnd + 100 \<rparr> \<rparr>"
  by (simp add: analyzeSentiment_def Let_def)

lemma analyze_score:
  "sentiment_score (analyzeSentiment rnd text) =
     hit_ratio (countHits positiveWords (toLowerCase text))
               (countHits negativeWords (toLowerCase text))"
proof -
  have "max (- 1) (min 1 (hit_ratio p n)) = hit_ratio p n" for p n
    using hit_ratio_bounds[of p n] by simp
  from this[of "countHits positiveWords (toLowerCase text)"
               "countHits negativeWords (toLowerCase text)"]
  show ?thesis
    by (simp add: analyzeSentiment_def Let_def hit_ratio_def)
qed

lemma analyze_confidence:
  "confidence_score (analyzeSentiment rnd text) =
     5 / 10 + \<bar>hit_ratio (countHits positiveWords (toLowerCase text))
                         (countHits negativeWords (toLowerCase text))\<bar> * (3 / 10)"
proof -
  have "min (95 / 100) (5 / 10 + \<bar>hit_ratio p n\<bar> * (3 / 10))
          = 5 / 10 + \<bar>hit_ratio p n\<bar> * (3 / 10)" for p n
    using hit_ratio_bounds[of p n] by (simp add: min_def abs_if)
  from this[of "countHits positiveWords (toLowerCase text)"
               "countHits negativeWords (toLowerCase text)"]
  show ?thesis
    by (simp add: analyzeSentiment_def Let_def hit_ratio_def)
qed

lemma analyze_label:
  "overall_sentiment (analyzeSentiment rnd text) =
     (let s = hit_ratio (countHits positiveWords (toLowerCase text))
                        (countHits negativeWords (toLowerCase text))
      in if s > 2 / 10 then Positive else if s < - (2 / 10) then Negative else Neutral)"
proof (cases "0 < countHits positiveWords (toLowerCase text)
                  + countHits negativeWords (toLowerCase text)")
  case True
  then show ?thesis
    by (simp only: analyzeSentiment_def Let_def hit_ratio_def SentimentResult.select_convs
                   if_True)
next
  case False
  then show ?thesis
    by (simp add: analyzeSentiment_def Let_def hit_ratio_def)
qed

lemma analyze_counters:
  "positive_words_found (analysis_metadata (analyzeSentiment rnd text))
     = countHits positiveWords (toLowerCase text)"
  "negative_words_found (analysis_metadata (analyzeSentiment rnd text))
     = countHits negativeWords (toLowerCase text)"
  by (simp_all add: analyzeSentiment_def Let_def)

lemma analyze_rnd_fields:
  "overall_sentiment (analyzeSentiment rnd s) = overall_sentiment (analyzeSentiment 0 s)"
  "sentiment_score (analyzeSentiment rnd s) = sentiment_score (analyzeSentiment 0 s)"
  "confidence_score (analyzeSentiment rnd s) = confidence_score (analyzeSentiment 0 s)"
  "key_topics (analyzeSentiment rnd s) = key_topics (analyzeSentiment 0 s)"
  "key_phrases (analyzeSentiment rnd s) = key_phrases (analyzeSentiment 0 s)"
  "reviewTags (analyzeSentiment rnd s) = reviewTags (analyzeSentiment 0 s)"
  by (subst analyzeSentiment_rnd, simp add: reviewTags_def topicTag_def)+

section \<open>The claims on the classification\<close>

text \<open>
  Claim C1. For every result of \<open>analyzeSentiment\<close>, on any text and any random draw, the
  score lies in \<open>[-1, 1]\<close>, the confidence lies in \<open>[0, 0.95]\<close>, and the label agrees with
  the score: the score is above \<open>0.2\<close> exactly when the label is positive, below \<open>-0.2\<close>
  exactly when the label is negative, and in between exactly when the label is neutral.
\<close>

theorem score_confidence_label_invariant:
  "- 1 \<le> sentiment_score (analyzeSentiment rnd text) \<and>
   sentiment_score (analyzeSentiment rnd text) \<le> 1 \<and>
   0 \<le> confidence_score (analyzeSentiment rnd text) \<and>
   confidence_score (analyzeSentiment rnd text) \<le> 95 / 100 \<and>
   (sentiment_score (analyzeSentiment rnd text) > 2 / 10
      \<longleftrightarrow> overall_sentiment (analyzeSentiment rnd text) = Positive) \<and>
   (sentiment_score (analyzeSentiment rnd text) < - (2 / 10)
      \<longleftrightarrow> overall_sentiment (analyzeSentiment rnd text) = Negative) \<and>
   (\<not> sentiment_score (analyzeSentiment rnd text) > 2 / 10 \<and>
    \<not> sentiment_score (analyzeSentiment rnd text) < - (2 / 10)
      \<longleftrightarrow> overall_sentiment (analyzeSentiment rnd text) = Neutral)"
proof -
  define s where "s = hit_ratio (countHits positiveWords (toLowerCase text))
                                (countHits negativeWords (toLowerCase text))"
  have b: "- 1 \<le> s" "s \<le> 1"
    unfolding s_def by (rule hit_ratio_bounds)+
  have sc: "sentiment_score (analyzeSentiment rnd text) = s"
    by (simp add: analyze_score s_def)
  have cf: "confidence_score (analyzeSentiment rnd text) = 5 / 10 + \<bar>s\<bar> * (3 / 10)"
    by (simp add: analyze_confidence s_def)
  have lb: "overall_sentiment (analyzeSentiment rnd text) =
              (if s > 2 / 10 then Positive else if s < - (2 / 10) then Negative else Neutral)"
    by (simp add: analyze_label s_def Let_def)
  from b show ?thesis
    unfolding sc cf lb by (simp add: abs_if)
qed

theorem score_confidence_label_invariant_witness:
  "sentiment_score (analyzeSentiment 0 ''Terrible, slow, rude staff, avoid this place'') = - 1 \<and>
   confidence_score (analyzeSentiment 0 ''Terrible, slow, rude staff, avoid this place'')
     \<le> 95 / 100 \<and>
   overall_sentiment (analyzeSentiment 0 ''Terrible, slow, rude staff, avoid this place'')
     = Negative"
proof -
  have "sentiment_score (analyzeSentiment 0 ''Terrible, slow, rude staff, avoid this place'')
          = - 1"
    by code_simp
  with score_confidence_label_invariant
         [of 0 "''Terrible, slow, rude staff, avoid this place''"]
  show ?thesis by simp
qed

text \<open>
  Claim C10. For every text the confidence lies in \<open>[0.5, 0.8]\<close>: it is
  \<open>0.5 + 0.3 \<times> |score|\<close> with \<open>|score| \<le> 1\<close>, so the cap \<open>0.95\<close> never binds, and a text
  without any lexicon hit has confidence \<open>0.5\<close>.
\<close>

theorem confidence_between_half_and_four_fifths:
  "5 / 10 \<le> confidence_score (analyzeSentiment rnd text) \<and>
   confidence_score (analyzeSentiment rnd text) \<le> 8 / 10 \<and>
   confidence_score (analyzeSentiment rnd text) =
     5 / 10 + 3 / 10 * \<bar>sentiment_score (analyzeSentiment rnd text)\<bar> \<and>
   (countHits positiveWords (toLowerCase text) + countHits negativeWords (toLowerCase text) = 0
      \<longrightarrow> confidence_score (analyzeSentiment rnd text) = 5 / 10)"
proof -
  define s where "s = hit_ratio (countHits positiveWords (toLowerCase text))
                                (countHits negativeWords (toLowerCase text))"
  have b: "- 1 \<le> s" "s \<le> 1"
    unfolding s_def by (rule hit_ratio_bounds)+
  have sc: "sentiment_score (analyzeSentiment rnd text) = s"
    by (simp add: analyze_score s_def)
  have cf: "confidence_score (analyzeSentiment rnd text) = 5 / 10 + \<bar>s\<bar> * (3 / 10)"
    by (simp add: analyze_confidence s_def)
  have z: "countHits positiveWords (toLowerCase text)
             + countHits negativeWords (toLowerCase text) = 0 \<Longrightarrow> s = 0"
    by (simp add: s_def hit_ratio_def)
  from b z show ?thesis
    unfolding sc cf by (auto simp: abs_if)
qed

theorem confidence_between_half_and_four_fifths_witness:
  "countHits positiveWords (toLowerCase ''It was a place. We went there on Tuesday.'')
     + countHits negativeWords (toLowerCase ''It was a place. We went there on Tuesday.'') = 0 \<and>
   confidence_score (analyzeSentiment 0 ''It was a place. We went there on Tuesday.'') = 5 / 10"
proof -
  have h: "countHits positiveWords (toLowerCase ''It was a place. We went there on Tuesday.'')
     + countHits negativeWords (toLowerCase ''It was a place. We went there on Tuesday.'') = 0"
    by code_simp
  with confidence_between_half_and_four_fifths
         [of 0 "''It was a place. We went there on Tuesday.''"]
  show ?thesis by blast
qed

text \<open>
  Claim C2, as stated: the hits are the occurrences of the lexicon terms, so that three
  occurrences of one positive term and one occurrence of one negative term score
  \<open>(3 - 1) / (3 + 1) = 0.5\<close>. The source adds one to a counter for each lexicon term that
  the text includes, however often: on \<open>good good good bad\<close> the specification's count is
  \<open>3\<close> and \<open>1\<close> and its score \<open>0.5\<close>, the counters of the source are \<open>1\<close> and \<open>1\<close> and its
  score is \<open>0\<close>.
\<close>

theorem score_counts_occurrences_counterexample:
  "spec_hits positiveWords (toLowerCase ''good good good bad'') = 3 \<and>
   spec_hits negativeWords (toLowerCase ''good good good bad'') = 1 \<and>
   spec_score ''good good good bad'' = 1 / 2 \<and>
   sentiment_score (analyzeSentiment 0 ''good good good bad'') = 0 \<and>
   sentiment_score (analyzeSentiment 0 ''good good good bad'')
     \<noteq> spec_score ''good good good bad''"
  by code_simp

text \<open>
  Claim C2, amended. For every text in which at least one lexicon term matches, the two
  counters are the numbers \<open>p\<close> and \<open>n\<close> of distinct terms of the positive and of the
  negative lexicon that occur in the lowercased text (as a contiguous part of it, at least
  once), and the score is \<open>(p - n) / (p + n)\<close>, which lies in \<open>[-1, 1]\<close> before any
  clamping.
\<close>

theorem score_counts_distinct_terms:
  assumes "p = card {w \<in> set positiveWords. sublist w (toLowerCase text)}"
      and "n = card {w \<in> set negativeWords. sublist w (toLowerCase text)}"
      and "0 < p + n"
  shows "positive_words_found (analysis_metadata (analyzeSentiment rnd text)) = p \<and>
         negative_words_found (analysis_metadata (analyzeSentiment rnd text)) = n \<and>
         sentiment_score (analyzeSentiment rnd text) = (of_nat p - of_nat n) / of_nat (p + n) \<and>
         - 1 \<le> (of_nat p - of_nat n) / (of_nat (p + n) :: rat) \<and>
         (of_nat p - of_nat n) / (of_nat (p + n) :: rat) \<le> 1"
proof -
  have p: "countHits positiveWords (toLowerCase text) = p"
    using assms(1) countHits_card[OF distinct_positiveWords] by simp
  have n: "countHits negativeWords (toLowerCase text) = n"
    using assms(2) countHits_card[OF distinct_negativeWords] by simp
  have r: "hit_ratio p n = (of_nat p - of_nat n) / of_nat (p + n)"
    using assms(3) by (simp only: hit_ratio_def if_True)
  show ?thesis
    using hit_ratio_bounds[of p n]
    unfolding analyze_counters analyze_score p n r by simp
qed

theorem score_counts_distinct_terms_witness:
  "card {w \<in> set positiveWords. sublist w (toLowerCase ''good good good bad'')} = 1 \<and>
   card {w \<in> set negativeWords. sublist w (toLowerCase ''good good good bad'')} = 1 \<and>
   sentiment_score (analyzeSentiment 0 ''good good good bad'') = 0"
proof -
  have "countHits positiveWords (toLowerCase ''good good good bad'') = 1"
    by code_simp
  then have p: "1 = card {w \<in> set positiveWords. sublist w (toLowerCase ''good good good bad'')}"
    using countHits_card[OF distinct_positiveWords] by simp
  have "countHits negativeWords (toLowerCase ''good good good bad'') = 1"
    by code_simp
  then have n: "1 = card {w \<in> set negativeWords. sublist w (toLowerCase ''good good good bad'')}"
    using countHits_card[OF distinct_negativeWords] by simp
  have "sentiment_score (analyzeSentiment 0 ''good good good bad'')
          = (of_nat 1 - of_nat 1) / of_nat (1 + 1)"
    using score_counts_distinct_terms[OF p n, of 0] by simp
  with p n show ?thesis by simp
qed

text \<open>
  Claim C3, as stated: two calls on the same text give the same result, metadata
  included. The metadata holds a processing time computed from \<open>Math.random()\<close>: two calls
  whose \<open>Math.floor(Math.random() * 200)\<close> is \<open>0\<close> and \<open>100\<close> (the numbers drawn being \<open>0\<close> and
  \<open>0.5\<close>) differ.
\<close>

theorem classification_bit_identical_counterexample:
  "analyzeSentiment 0 ''good'' \<noteq> analyzeSentiment 100 ''good''"
  by code_simp

text \<open>
  Claim C3, amended. Two calls on the same text give the same label, score, confidence,
  topics, key phrases and derived tags, and the same metadata apart from the processing
  time, which is \<open>100\<close> more than the value of \<open>Math.floor(Math.random() * 200)\<close> in the call.
\<close>

theorem classification_deterministic_except_time:
  "overall_sentiment (analyzeSentiment r1 text) = overall_sentiment (analyzeSentiment r2 text) \<and>
   sentiment_score (analyzeSentiment r1 text) = sentiment_score (analyzeSentiment r2 text) \<and>
   confidence_score (analyzeSentiment r1 text) = confidence_score (analyzeSentiment r2 text) \<and>
   key_topics (analyzeSentiment r1 text) = key_topics (analyzeSentiment r2 text) \<and>
   key_phrases (analyzeSentiment r1 text) = key_phrases (analyzeSentiment r2 text) \<and>
   reviewTags (analyzeSentiment r1 text) = reviewTags (analyzeSentiment r2 text) \<and>
   (analysis_metadata (analyzeSentiment r1 text)) \<lparr> processing_time_ms := 0 \<rparr>
     = (analysis_metadata (analyzeSentiment r2 text)) \<lparr> processing_time_ms := 0 \<rparr> \<and>
   processing_time_ms (analysis_metadata (analyzeSentiment r1 text)) = r1 + 100"
  using analyze_rnd_fields(6)[of r1 "text"] analyze_rnd_fields(6)[of r2 "text"]
  by (simp add: analyzeSentiment_rnd[of r1] analyzeSentiment_rnd[of r2])

theorem classification_deterministic_except_time_witness:
  "processing_time_ms (analysis_metadata (analyzeSentiment 100 ''good'')) = 200 \<and>
   processing_time_ms (analysis_metadata (analyzeSentiment 0 ''good'')) = 100 \<and>
   sentiment_score (analyzeSentiment 100 ''good'')
     = sentiment_score (analyzeSentiment 0 ''good'') \<and>
   key_phrases (analyzeSentiment 100 ''good'') = key_phrases (analyzeSentiment 0 ''good'')"
  using classification_deterministic_except_time[of 100 "''good''" 0]
        classification_deterministic_except_time[of 0 "''good''" 0]
  by simp

text \<open>
  Claim C9. On the text \<open>Amazing coffee and friendly staff, highly recommend\<close> the label is
  positive, the score is above \<open>0.2\<close>, the topics are \<open>service\<close> and \<open>coffee\<close>, and the tags
  derived from the result are \<open>friendly staff\<close> in the category \<open>staff\<close> and \<open>quality food\<close>
  in the category \<open>product\<close>, each with the confidence of the result.
\<close>

theorem positive_review_scenario:
  "overall_sentiment (analyzeSentiment rnd ''Amazing coffee and friendly staff, highly recommend'')
     = Positive \<and>
   sentiment_score (analyzeSentiment rnd ''Amazing coffee and friendly staff, highly recommend'')
     > 2 / 10 \<and>
   key_topics (analyzeSentiment rnd ''Amazing coffee and friendly staff, highly recommend'')
     = [''service'', ''coffee''] \<and>
   reviewTags (analyzeSentiment rnd ''Amazing coffee and friendly staff, highly recommend'')
     = [\<lparr> tag_name = ''friendly staff'', tag_category = ''staff'',
          tag_confidence = confidence_score
            (analyzeSentiment rnd ''Amazing coffee and friendly staff, highly recommend'') \<rparr>,
        \<lparr> tag_name = ''quality food'', tag_category = ''product'',
          tag_confidence = confidence_score
            (analyzeSentiment rnd ''Amazing coffee and friendly staff, highly recommend'') \<rparr>]"
proof -
  have 0:
    "overall_sentiment (analyzeSentiment 0 ''Amazing coffee and friendly staff, highly recommend'')
       = Positive \<and>
     sentiment_score (analyzeSentiment 0 ''Amazing coffee and friendly staff, highly recommend'')
       > 2 / 10 \<and>
     key_topics (analyzeSentiment 0 ''Amazing coffee and friendly staff, highly recommend'')
       = [''service'', ''coffee''] \<and>
     reviewTags (analyzeSentiment 0 ''Amazing coffee and friendly staff, highly recommend'')
       = [\<lparr> tag_name = ''friendly staff'', tag_category = ''staff'',
            tag_confidence = confidence_score
              (analyzeSentiment 0 ''Amazing coffee and friendly staff, highly recommend'') \<rparr>,
          \<lparr> tag_name = ''quality food'', tag_category = ''product'',
            tag_confidence = confidence_score
              (analyzeSentiment 0 ''Amazing coffee and friendly staff, highly recommend'') \<rparr>]"
    by code_simp
  show ?thesis
    unfolding analyze_rnd_fields[of rnd] by (rule 0)
qed

theorem positive_review_scenario_witness:
  "overall_sentiment
     (analyzeSentiment 57 ''Amazing coffee and friendly staff, highly recommend'')
     = Positive \<and>
   key_topics (analyzeSentiment 57 ''Amazing coffee and friendly staff, highly recommend'')
     = [''service'', ''coffee'']"
  using positive_review_scenario[of 57] by blast

section \<open>Lemmas on the store and the handlers\<close>

lemma reviews_with_key_conv:
  "reviews_with_key st b p k = filter (\<lambda>r. review_key r = (b, p, k)) (reviews st)"
  by (simp add: reviews_with_key_def review_key_def)

lemma keyed_nonempty_iff:
  "reviews_with_key st b p k \<noteq> [] \<longleftrightarrow> (b, p, k) \<in> set (map review_key (reviews st))"
  by (force simp: reviews_with_key_conv filter_empty_conv)

lemma select_review_Some:
  "select_review st b p k = Some r \<Longrightarrow> reviews_with_key st b p k \<noteq> []"
  by (auto simp: select_review_def split: list.splits)

lemma insert_review_Inl:
  "insert_review st b p r isp ps = Inl e \<Longrightarrow> blocked st b p r"
  by (auto simp: insert_review_def blocked_def Let_def split: if_splits)

lemma insert_review_Inr:
  assumes "insert_review st b p r isp ps = Inr (row, st1)"
  shows "row = \<lparr> review_id = next_uuid st, business_id = b, platform = p,
                 review_data = r, is_processed = isp, processing_status = ps \<rparr>"
    and "st1 = st\<lparr> reviews := reviews st @ [row], next_uuid := next_uuid st + 1 \<rparr>"
    and "reviews_with_key st b p (platform_review_id r) = []"
    and "\<not> blocked st b p r"
  using assms by (auto simp: insert_review_def blocked_def Let_def split: if_splits)

lemma blocked_cong:
  "businesses st' = businesses st \<Longrightarrow> db_accepts st' = db_accepts st \<Longrightarrow>
   set (map review_key (reviews st)) \<subseteq> set (map review_key (reviews st')) \<Longrightarrow>
   blocked st b p r \<Longrightarrow> blocked st' b p r"
  unfolding blocked_def keyed_nonempty_iff by auto

lemma loop_Cons_cases:
  obtains
    (existing) "reviews_with_key st b p (platform_review_id r) \<noteq> []"
      "\<And>acc revs. processAndStoreLoop st b p (r # revs) acc = processAndStoreLoop st b p revs acc"
  | (failed) "blocked st b p r"
      "\<And>acc revs. processAndStoreLoop st b p (r # revs) acc
         = processAndStoreLoop (log_insert_error st) b p revs acc"
  | (inserted) "reviews_with_key st b p (platform_review_id r) = []"
      "\<not> blocked st b p r"
      "\<And>acc revs. processAndStoreLoop st b p (r # revs) acc
         = processAndStoreLoop (after_insert st b p r) b p revs (acc @ [inserted_row st b p r])"
proof (cases "select_review st b p (platform_review_id r)")
  case (Some a)
  then show ?thesis
    using existing select_review_Some by simp
next
  case None
  show ?thesis
  proof (cases "insert_review st b p r False Pending")
    case (Inl e)
    with None show ?thesis
      using failed insert_review_Inl by (simp add: log_insert_error_def)
  next
    case (Inr x)
    obtain row st1 where x: "x = (row, st1)" by (cases x)
    note ins = insert_review_Inr[OF Inr[unfolded x]]
    have row: "row = inserted_row st b p r"
      by (simp add: ins(1) inserted_row_def)
    have st2: "update_review st1 (review_id row)
                 (\<lambda>r. r\<lparr> is_processed := True, processing_status := Completed \<rparr>)
               = after_insert st b p r"
      unfolding after_insert_def ins(2) row by (simp add: inserted_row_def)
    show ?thesis
      using inserted[OF ins(3) ins(4)] None Inr x st2 row by simp
  qed
qed

lemma after_insert_simps:
  "businesses (after_insert st b p r) = businesses st"
  "map review_key (reviews (after_insert st b p r))
     = map review_key (reviews st) @ [(b, p, platform_review_id r)]"
  "length (reviews (after_insert st b p r)) = Suc (length (reviews st))"
  "console (after_insert st b p r) = console st"
  "db_accepts (after_insert st b p r) = db_accepts st"
  by (simp_all add: after_insert_def update_review_def inserted_row_def review_key_def comp_def)

lemma log_insert_error_simps:
  "businesses (log_insert_error st) = businesses st"
  "reviews (log_insert_error st) = reviews st"
  "console (log_insert_error st) = console st @ [''Error inserting review:'']"
  "db_accepts (log_insert_error st) = db_accepts st"
  by (simp_all add: log_insert_error_def)

lemma blocked_log: "blocked (log_insert_error st) b p r = blocked st b p r"
  by (simp add: blocked_def reviews_with_key_def log_insert_error_def)

lemma blocked_after_insert:
  "blocked st b p x \<Longrightarrow> blocked (after_insert st b' p' r) b p x"
  by (rule blocked_cong[of _ st]) (auto simp: after_insert_simps)

lemma blocked_after_insert_self: "blocked (after_insert st b p r) b p r"
  unfolding blocked_def keyed_nonempty_iff by (simp add: after_insert_simps)

lemma blocked_existing:
  "reviews_with_key st b p (platform_review_id r) \<noteq> [] \<Longrightarrow> blocked st b p r"
  by (simp add: blocked_def)

lemma loop_blocked_mono:
  "blocked st b p x \<Longrightarrow> blocked (snd (processAndStoreLoop st b p revs acc)) b p x"
proof (induction revs arbitrary: st acc)
  case Nil
  then show ?case by simp
next
  case (Cons r revs)
  show ?case
  proof (cases rule: loop_Cons_cases[of st b p r])
    case existing
    then show ?thesis using Cons by simp
  next
    case failed
    then show ?thesis using Cons by (simp add: blocked_log)
  next
    case inserted
    then show ?thesis using Cons by (simp add: blocked_after_insert)
  qed
qed

lemma loop_blocks:
  "x \<in> set revs \<Longrightarrow> blocked (snd (processAndStoreLoop st b p revs acc)) b p x"
proof (induction revs arbitrary: st acc)
  case Nil
  then show ?case by simp
next
  case (Cons r revs)
  show ?case
  proof (cases rule: loop_Cons_cases[of st b p r])
    case existing
    then show ?thesis
      using Cons loop_blocked_mono[OF blocked_existing, of st b p r revs acc] by auto
  next
    case failed
    then show ?thesis
      using Cons loop_blocked_mono[of "log_insert_error st" b p r revs acc]
      by (auto simp: blocked_log)
  next
    case inserted
    then show ?thesis
      using Cons loop_blocked_mono[OF blocked_after_insert_self,
                                   of st b p r revs "acc @ [inserted_row st b p r]"]
      by auto
  qed
qed

lemma loop_noop:
  "\<forall>x \<in> set revs. blocked st b p x \<Longrightarrow>
     fst (processAndStoreLoop st b p revs acc) = acc \<and>
     reviews (snd (processAndStoreLoop st b p revs acc)) = reviews st \<and>
     businesses (snd (processAndStoreLoop st b p revs acc)) = businesses st"
proof (induction revs arbitrary: st acc)
  case Nil
  then show ?case by simp
next
  case (Cons r revs)
  show ?case
  proof (cases rule: loop_Cons_cases[of st b p r])
    case existing
    then show ?thesis using Cons by simp
  next
    case failed
    then show ?thesis
      using Cons.prems Cons.IH[of "log_insert_error st" acc]
      by (simp add: blocked_log log_insert_error_simps)
  next
    case inserted
    with Cons.prems show ?thesis by simp
  qed
qed

lemma loop_unique:
  "unique_ok st \<Longrightarrow> unique_ok (snd (processAndStoreLoop st b p revs acc))"
proof (induction revs arbitrary: st acc)
  case Nil
  then show ?case by simp
next
  case (Cons r revs)
  show ?case
  proof (cases rule: loop_Cons_cases[of st b p r])
    case existing
    then show ?thesis using Cons by simp
  next
    case failed
    then show ?thesis
      using Cons.prems Cons.IH[of "log_insert_error st" acc]
      by (simp add: unique_ok_def log_insert_error_simps)
  next
    case inserted
    from inserted(1) have "(b, p, platform_review_id r) \<notin> set (map review_key (reviews st))"
      using keyed_nonempty_iff by blast
    with Cons.prems have "unique_ok (after_insert st b p r)"
      by (simp add: unique_ok_def after_insert_simps)
    then show ?thesis
      using inserted(3) Cons.IH by simp
  qed
qed

lemma loop_length:
  "length (reviews (snd (processAndStoreLoop st b p revs acc))) + length acc
     = length (reviews st) + length (fst (processAndStoreLoop st b p revs acc))"
proof (induction revs arbitrary: st acc)
  case Nil
  then show ?case by simp
next
  case (Cons r revs)
  show ?case
  proof (cases rule: loop_Cons_cases[of st b p r])
    case existing
    then show ?thesis using Cons by simp
  next
    case failed
    then show ?thesis
      using Cons.IH[of "log_insert_error st" acc] by (simp add: log_insert_error_simps)
  next
    case inserted
    then show ?thesis
      using Cons.IH[of "after_insert st b p r" "acc @ [inserted_row st b p r]"]
      by (simp add: after_insert_simps)
  qed
qed

lemma handler_skipped:
  assumes "req_method \<noteq> ''OPTIONS''" "select_business st b = Some bz" "is_fresh now force bz"
      and "p \<noteq> []"
  shows "fetch_reviews_handler fG fY now nu st req_method (Some (Some b, Some p, force))
           = ((200, Skipping ''Reviews recently fetched, skipping'' (the (last_review_fetch bz))), st)"
  using assms by (cases force) (auto simp: fetch_reviews_handler_def is_fresh_def)

lemma handler_fetch_failed:
  assumes "req_method \<noteq> ''OPTIONS''" "select_business st b = Some bz" "\<not> is_fresh now force bz"
      and "fetch_for fG fY p bz = Inl e" and "p \<noteq> []"
  shows "fetch_reviews_handler fG fY now nu st req_method (Some (Some b, Some p, force))
           = ((500, Error ''Internal server error''),
              st\<lparr> console := console st @ [''Error fetching reviews:''] \<rparr>)"
  using assms
  by (cases force) (auto simp: fetch_reviews_handler_def is_fresh_def fetch_for_def)

lemma handler_fetched:
  assumes "req_method \<noteq> ''OPTIONS''" "select_business st b = Some bz" "\<not> is_fresh now force bz"
      and "fetch_for fG fY p bz = Inr revs" and "p \<noteq> []"
  shows "fetch_reviews_handler fG fY now nu st req_method (Some (Some b, Some p, force))
           = ((200, Fetched ''Reviews fetched successfully''
                      (length (fst (processAndStoreReviews st b p revs))) p b),
              update_business (snd (processAndStoreReviews st b p revs)) b (stamp nu))"
  using assms
  by (cases force)
     (auto simp: fetch_reviews_handler_def is_fresh_def fetch_for_def stamp_def
           split: prod.splits)

lemma handler_options:
  "fetch_reviews_handler fG fY now nu st ''OPTIONS'' req_body = ((200, Text ''ok''), st)"
  by (simp add: fetch_reviews_handler_def)

lemma handler_bad_json:
  "req_method \<noteq> ''OPTIONS'' \<Longrightarrow>
   fetch_reviews_handler fG fY now nu st req_method None
     = ((500, Error ''Internal server error''),
        st\<lparr> console := console st @ [''Error fetching reviews:''] \<rparr>)"
  by (simp add: fetch_reviews_handler_def)

lemma handler_missing:
  "req_method \<noteq> ''OPTIONS'' \<Longrightarrow> bo = None \<or> po = None \<or> po = Some [] \<Longrightarrow>
   fetch_reviews_handler fG fY now nu st req_method (Some (bo, po, force))
     = ((400, Error ''Missing required fields: business_id and platform''), st)"
  by (auto simp: fetch_reviews_handler_def)

lemma handler_not_found:
  "req_method \<noteq> ''OPTIONS'' \<Longrightarrow> select_business st b = None \<Longrightarrow> p \<noteq> [] \<Longrightarrow>
   fetch_reviews_handler fG fY now nu st req_method (Some (Some b, Some p, force))
     = ((404, Error ''Business not found''), st)"
  by (auto simp: fetch_reviews_handler_def)

lemma handler_Fetched_inv:
  assumes "fst (fetch_reviews_handler fG fY now nu st req_method req_body) = (200, Fetched msg n p b)"
  obtains force bz revs where
    "req_method \<noteq> ''OPTIONS''" "req_body = Some (Some b, Some p, force)" "p \<noteq> []"
    "select_business st b = Some bz" "\<not> is_fresh now force bz"
    "fetch_for fG fY p bz = Inr revs"
proof -
  have m: "req_method \<noteq> ''OPTIONS''"
    using assms handler_options[of fG fY now nu st req_body] by auto
  obtain bo po force where rb0: "req_body = Some (bo, po, force)"
    using assms handler_bad_json[OF m, of fG fY now nu st]
    by (cases req_body) auto
  have "\<not> (bo = None \<or> po = None \<or> po = Some [])"
  proof
    assume "bo = None \<or> po = None \<or> po = Some []"
    from handler_missing[OF m this, of fG fY now nu st force] assms rb0
    show False by simp
  qed
  then obtain b' p' where bp: "bo = Some b'" "po = Some p'" and pne: "p' \<noteq> []"
    by (cases bo; cases po) auto
  have rb: "req_body = Some (Some b', Some p', force)"
    using rb0 bp by simp
  obtain bz where sb: "select_business st b' = Some bz"
    using assms handler_not_found[OF m _ pne, of st b' fG fY now nu force] rb
    by (cases "select_business st b'") auto
  have nf: "\<not> is_fresh now force bz"
    using handler_skipped[OF m sb _ pne, of now force fG fY nu] assms rb by auto
  obtain revs where fr: "fetch_for fG fY p' bz = Inr revs"
    using handler_fetch_failed[OF m sb nf _ pne, of fG fY _ nu] assms rb
    by (cases "fetch_for fG fY p' bz") auto
  have "p' = p" "b' = b"
    using handler_fetched[OF m sb nf fr pne, of nu] assms rb by auto
  with that m rb sb nf fr pne show ?thesis by blast
qed

lemma loop_businesses:
  "businesses (snd (processAndStoreLoop st b p revs acc)) = businesses st"
proof (induction revs arbitrary: st acc)
  case Nil
  then show ?case by simp
next
  case (Cons r revs)
  show ?case
    by (cases rule: loop_Cons_cases[of st b p r])
       (simp_all add: Cons log_insert_error_simps after_insert_simps)
qed

lemma loop_db_accepts:
  "db_accepts (snd (processAndStoreLoop st b p revs acc)) = db_accepts st"
proof (induction revs arbitrary: st acc)
  case Nil
  then show ?case by simp
next
  case (Cons r revs)
  show ?case
    by (cases rule: loop_Cons_cases[of st b p r])
       (simp_all add: Cons log_insert_error_simps after_insert_simps)
qed

lemma distinct_filter_le_1:
  "distinct (map f xs) \<Longrightarrow> length (filter (\<lambda>x. f x = k) xs) \<le> 1"
  by (induction xs) (auto simp: filter_empty_conv image_iff)

lemma select_business_update:
  "select_business st b = Some bz \<Longrightarrow>
   select_business (update_business st' b (stamp t)) b = Some (stamp t bz)"
  if "businesses st' = businesses st"
proof -
  assume a: "select_business st b = Some bz"
  have f: "filter (\<lambda>bz. biz_id bz = b) (map (\<lambda>bz. if biz_id bz = b then stamp t bz else bz) xs)
        = map (stamp t) (filter (\<lambda>bz. biz_id bz = b) xs)" for xs
    by (induction xs) (auto simp: stamp_def)
  from a show ?thesis
    by (auto simp: select_business_def update_business_def that f split: list.splits)
qed

lemma blocked_update_business:
  "blocked st b p r \<Longrightarrow> blocked (update_business st b' (stamp t)) b p r"
proof -
  have f: "(filter (\<lambda>bz. biz_id bz = b) (map (\<lambda>bz. if biz_id bz = b' then stamp t bz else bz) xs) = [])
        = (filter (\<lambda>bz. biz_id bz = b) xs = [])" for xs
    by (induction xs) (auto simp: stamp_def)
  show "blocked st b p r \<Longrightarrow> blocked (update_business st b' (stamp t)) b p r"
    by (auto simp: blocked_def update_business_def f reviews_with_key_def)
qed

lemma fetch_for_stamp: "fetch_for fG fY p (stamp t bz) = fetch_for fG fY p bz"
  by (simp add: fetch_for_def stamp_def)

lemma reviews_update_business: "reviews (update_business st b f) = reviews st"
  by (simp add: update_business_def)

lemma second_pass_adds_nothing:
  assumes "fst (fetch_reviews_handler fG fY now1 nu1 st req_method req_body)
             = (200, Fetched msg n p b)"
  shows "reviews (snd (fetch_reviews_handler fG fY now2 nu2
                         (snd (fetch_reviews_handler fG fY now1 nu1 st req_method req_body))
                         req_method req_body))
           = reviews (snd (fetch_reviews_handler fG fY now1 nu1 st req_method req_body))"
proof -
  from assms obtain force bz revs where
    m: "req_method \<noteq> ''OPTIONS''" and rb: "req_body = Some (Some b, Some p, force)" and
    pne: "p \<noteq> []" and
    sb: "select_business st b = Some bz" and nf: "\<not> is_fresh now1 force bz" and
    fr: "fetch_for fG fY p bz = Inr revs"
    by (rule handler_Fetched_inv)
  define st1 where "st1 = snd (processAndStoreReviews st b p revs)"
  define st2 where "st2 = update_business st1 b (stamp nu1)"
  have h1: "snd (fetch_reviews_handler fG fY now1 nu1 st req_method (Some (Some b, Some p, force)))
              = st2"
    unfolding handler_fetched[OF m sb nf fr pne] st2_def st1_def by simp
  have sb2: "select_business st2 b = Some (stamp nu1 bz)"
    unfolding st2_def
    by (rule select_business_update[OF _ sb])
       (simp add: st1_def processAndStoreReviews_def loop_businesses)
  have fr2: "fetch_for fG fY p (stamp nu1 bz) = Inr revs"
    by (simp add: fetch_for_stamp fr)
  have bl: "\<forall>x \<in> set revs. blocked st2 b p x"
    unfolding st2_def st1_def processAndStoreReviews_def
    by (auto intro: blocked_update_business loop_blocks)
  show ?thesis
  proof (cases "is_fresh now2 force (stamp nu1 bz)")
    case True
    show ?thesis
      unfolding rb h1 handler_skipped[OF m sb2 True pne] by simp
  next
    case False
    show ?thesis
      unfolding rb h1 handler_fetched[OF m sb2 False fr2 pne]
      using loop_noop[OF bl, of "[]"]
      by (simp add: reviews_update_business processAndStoreReviews_def)
  qed
qed

lemma pending_then_completed_reviews:
  "reviews st' = reviews st \<Longrightarrow> pending_then_completed st' nr = pending_then_completed st nr"
  by (simp add: pending_then_completed_def)

lemma reviews_after_insert:
  "reviews (after_insert st b p r)
     = map (\<lambda>x. if review_id x = next_uuid st
                 then x\<lparr> is_processed := True, processing_status := Completed \<rparr> else x)
           (reviews st)
       @ [(inserted_row st b p r)\<lparr> is_processed := True, processing_status := Completed \<rparr>]"
  by (simp add: after_insert_def update_review_def inserted_row_def)

lemma pending_then_completed_after_insert:
  "pending_then_completed st nr \<Longrightarrow> pending_then_completed (after_insert st b p r) nr"
  unfolding pending_then_completed_def reviews_after_insert
  by (auto simp: list_ex_iff list_all_iff inserted_row_def)

lemma pending_then_completed_inserted_row:
  "pending_then_completed (after_insert st b p r) (inserted_row st b p r)"
  unfolding pending_then_completed_def reviews_after_insert
  by (auto simp: list_ex_iff list_all_iff inserted_row_def)

lemma loop_pending_then_completed:
  "list_all (pending_then_completed st) acc \<Longrightarrow>
   list_all (pending_then_completed (snd (processAndStoreLoop st b p revs acc)))
            (fst (processAndStoreLoop st b p revs acc))"
proof (induction revs arbitrary: st acc)
  case Nil
  then show ?case by simp
next
  case (Cons r revs)
  show ?case
  proof (cases rule: loop_Cons_cases[of st b p r])
    case existing
    then show ?thesis using Cons by simp
  next
    case failed
    have "pending_then_completed (log_insert_error st) = pending_then_completed st"
      by (rule ext, rule pending_then_completed_reviews) (simp add: log_insert_error_simps)
    with Cons.prems have "list_all (pending_then_completed (log_insert_error st)) acc"
      by simp
    then show ?thesis using failed Cons.IH by simp
  next
    case inserted
    have "list_all (pending_then_completed (after_insert st b p r)) (acc @ [inserted_row st b p r])"
      using Cons.prems pending_then_completed_after_insert pending_then_completed_inserted_row
      by (auto simp: list_all_iff)
    then show ?thesis using inserted Cons.IH by simp
  qed
qed

section \<open>The claims on ingestion and on the handlers\<close>

text \<open>
  Claim C4. A second run of ingestion on the same external reviews stores no more rows
  than the first: \<open>processAndStoreReviews\<close>, run again on the state it returns, inserts
  nothing and leaves the table \<open>reviews\<close> as it is; it keeps the uniqueness of the dedup key,
  and a review that the table accepts (values that the server converts, rating within
  \<open>1..5\<close>, a platform of the schema, business present) has exactly one row with its key
  afterwards, however often it occurs in the fetched list. For the
  handler: after a run that answered with a fetch result, a second run of the same request
  with the same fetchers, at any clock, leaves \<open>reviews\<close> as the first run left it.
\<close>

theorem ingestion_dedup_idempotent:
  "fst (processAndStoreReviews (snd (processAndStoreReviews st b p revs)) b p revs) = [] \<and>
   reviews (snd (processAndStoreReviews (snd (processAndStoreReviews st b p revs)) b p revs))
     = reviews (snd (processAndStoreReviews st b p revs)) \<and>
   (unique_ok st \<longrightarrow> unique_ok (snd (processAndStoreReviews st b p revs))) \<and>
   (unique_ok st \<and> r \<in> set revs \<and> db_accepts st r \<and> 1 \<le> rating r \<and> rating r \<le> 5
      \<and> p \<in> set review_platforms \<and> select_business st b \<noteq> None \<longrightarrow>
      length (reviews_with_key (snd (processAndStoreReviews st b p revs)) b p
                (platform_review_id r)) = 1) \<and>
   (fst (fetch_reviews_handler fG fY now1 nu1 st req_method req_body) = (200, Fetched msg n p' b')
      \<longrightarrow>
      reviews (snd (fetch_reviews_handler fG fY now2 nu2
                         (snd (fetch_reviews_handler fG fY now1 nu1 st req_method req_body))
                         req_method req_body))
           = reviews (snd (fetch_reviews_handler fG fY now1 nu1 st req_method req_body)))"
proof -
  define st1 where "st1 = snd (processAndStoreReviews st b p revs)"
  have bl: "\<forall>x \<in> set revs. blocked st1 b p x"
    unfolding st1_def processAndStoreReviews_def by (auto intro: loop_blocks)
  have a: "fst (processAndStoreReviews st1 b p revs) = []"
          "reviews (snd (processAndStoreReviews st1 b p revs)) = reviews st1"
    using loop_noop[OF bl, of "[]"] by (simp_all add: processAndStoreReviews_def)
  have u: "unique_ok st \<Longrightarrow> unique_ok st1"
    unfolding st1_def processAndStoreReviews_def by (rule loop_unique)
  have one: "length (reviews_with_key st1 b p (platform_review_id r)) = 1"
    if "unique_ok st" "r \<in> set revs" "db_accepts st r" "1 \<le> rating r" "rating r \<le> 5"
       "p \<in> set review_platforms" "select_business st b \<noteq> None"
  proof -
    have bz: "filter (\<lambda>bz. biz_id bz = b) (businesses st1) \<noteq> []"
      using that(7)
      by (auto simp: st1_def processAndStoreReviews_def loop_businesses select_business_def)
    have acc: "db_accepts st1 r"
      using that(3) by (simp add: st1_def processAndStoreReviews_def loop_db_accepts)
    from bl that(2) have "blocked st1 b p r" by blast
    with that(4,5,6) bz acc have ne: "reviews_with_key st1 b p (platform_review_id r) \<noteq> []"
      by (simp add: blocked_def)
    have "distinct (map review_key (reviews st1))"
      using u[OF that(1)] by (simp add: unique_ok_def)
    then have "length (reviews_with_key st1 b p (platform_review_id r)) \<le> 1"
      unfolding reviews_with_key_conv by (rule distinct_filter_le_1)
    with ne show ?thesis
      by (cases "reviews_with_key st1 b p (platform_review_id r)") auto
  qed
  show ?thesis
    using a u one second_pass_adds_nothing[of fG fY now1 nu1 st req_method req_body msg n p' b' now2 nu2]
    unfolding st1_def by blast
qed

theorem ingestion_dedup_idempotent_witness:
  "unique_ok sample_state \<and>
   length (reviews_with_key
             (snd (processAndStoreReviews sample_state 1 ''google'' [sample_review, sample_review]))
             1 ''google'' (platform_review_id sample_review)) = 1 \<and>
   unique_ok (snd (processAndStoreReviews sample_state 1 ''google'' [sample_review, sample_review])) \<and>
   fst (fetch_reviews_handler (\<lambda>placeId. Inr [sample_review]) (\<lambda>businessId. Inr []) 0 0
          sample_state ''POST'' (Some (Some 1, Some ''google'', Some True)))
     = (200, Fetched ''Reviews fetched successfully'' 1 ''google'' 1) \<and>
   length (reviews (snd (fetch_reviews_handler (\<lambda>placeId. Inr [sample_review])
                           (\<lambda>businessId. Inr []) 1 1
             (snd (fetch_reviews_handler (\<lambda>placeId. Inr [sample_review]) (\<lambda>businessId. Inr [])
                     0 0 sample_state ''POST'' (Some (Some 1, Some ''google'', Some True))))
             ''POST'' (Some (Some 1, Some ''google'', Some True))))) = 1 \<and>
   reviews (snd (processAndStoreReviews sample_state 1 ''google''
                   [sample_review\<lparr> review_date := ''not-a-date'' \<rparr>])) = []"
proof -
  have nd: "reviews (snd (processAndStoreReviews sample_state 1 ''google''
                   [sample_review\<lparr> review_date := ''not-a-date'' \<rparr>])) = []"
    by code_simp
  have h: "unique_ok sample_state" "sample_review \<in> set [sample_review, sample_review]"
          "db_accepts sample_state sample_review"
          "1 \<le> rating sample_review" "rating sample_review \<le> 5"
          "''google'' \<in> set review_platforms"
          "select_business sample_state 1 \<noteq> None"
    by (simp_all add: unique_ok_def sample_state_def sample_review_def select_business_def
                      review_platforms_def)
  have f: "fst (fetch_reviews_handler (\<lambda>placeId. Inr [sample_review]) (\<lambda>businessId. Inr []) 0 0
          sample_state ''POST'' (Some (Some 1, Some ''google'', Some True)))
     = (200, Fetched ''Reviews fetched successfully'' 1 ''google'' 1)"
    by code_simp
  have l: "length (reviews (snd (fetch_reviews_handler (\<lambda>placeId. Inr [sample_review])
             (\<lambda>businessId. Inr []) 0 0 sample_state ''POST''
             (Some (Some 1, Some ''google'', Some True))))) = 1"
    by code_simp
  note t1 = ingestion_dedup_idempotent
      [where st = sample_state and b = 1 and p = "''google''"
         and revs = "[sample_review, sample_review]" and r = sample_review]
  note t2 = ingestion_dedup_idempotent
      [where st = sample_state and fG = "\<lambda>placeId. Inr [sample_review]"
         and fY = "\<lambda>businessId. Inr []" and ?now1.0 = 0 and ?nu1.0 = 0 and ?now2.0 = 1
         and ?nu2.0 = 1 and req_method = "''POST''"
         and req_body = "Some (Some 1, Some ''google'', Some True)"
         and msg = "''Reviews fetched successfully''" and n = 1 and p' = "''google''" and b' = 1]
  from t2 f l have "length (reviews (snd (fetch_reviews_handler (\<lambda>placeId. Inr [sample_review])
                           (\<lambda>businessId. Inr []) 1 1
             (snd (fetch_reviews_handler (\<lambda>placeId. Inr [sample_review]) (\<lambda>businessId. Inr [])
                     0 0 sample_state ''POST'' (Some (Some 1, Some ''google'', Some True))))
             ''POST'' (Some (Some 1, Some ''google'', Some True))))) = 1"
    by simp
  with t1 h f nd show ?thesis by blast
qed

text \<open>
  Claim C5, as stated: a review newly stored by ingestion is pending when the operation
  returns. The loop updates each row it has inserted to \<open>completed\<close> before it goes on: after
  the handler has stored the sample review, the one row of \<open>reviews\<close> is completed.
\<close>

theorem new_review_pending_on_return_counterexample:
  "fst (fetch_reviews_handler (\<lambda>placeId. Inr [sample_review]) (\<lambda>businessId. Inr []) 0 0
          sample_state ''POST'' (Some (Some 1, Some ''google'', None)))
     = (200, Fetched ''Reviews fetched successfully'' 1 ''google'' 1) \<and>
   map processing_status
     (reviews (snd (fetch_reviews_handler (\<lambda>placeId. Inr [sample_review]) (\<lambda>businessId. Inr [])
                      0 0 sample_state ''POST'' (Some (Some 1, Some ''google'', None)))))
     = [Completed]"
  by code_simp

text \<open>
  Claim C5, amended. Every review newly stored by ingestion is inserted pending and
  unprocessed, which is what the row returned to the caller shows, and is updated to
  completed and processed right after the insert: when \<open>processAndStoreReviews\<close> returns,
  each returned row has a stored row with its identifier, and every stored row with that
  identifier is completed and processed.
\<close>

theorem new_review_inserted_pending_stored_completed:
  "list_all (pending_then_completed (snd (processAndStoreReviews st b p revs)))
            (fst (processAndStoreReviews st b p revs))"
  unfolding processAndStoreReviews_def by (rule loop_pending_then_completed) simp

theorem new_review_inserted_pending_stored_completed_witness:
  "fst (processAndStoreReviews sample_state 1 ''google'' [sample_review])
     = [inserted_row sample_state 1 ''google'' sample_review] \<and>
   pending_then_completed (snd (processAndStoreReviews sample_state 1 ''google'' [sample_review]))
     (inserted_row sample_state 1 ''google'' sample_review)"
proof -
  have "fst (processAndStoreReviews sample_state 1 ''google'' [sample_review])
     = [inserted_row sample_state 1 ''google'' sample_review]"
    by code_simp
  with new_review_inserted_pending_stored_completed[of sample_state 1 "''google''" "[sample_review]"] show ?thesis by simp
qed

text \<open>
  Claim C6, as stated: on an empty review text the classification rejects the request and
  marks the review failed. The handler answers 400 before it touches the store: the
  pending sample review is still pending.
\<close>

theorem empty_text_marks_review_failed_counterexample:
  "fst (analyze_sentiment_handler 0 sample_pending_state ''POST'' (Some (Some 10, Some [])))
     = (400, Error ''Missing required fields: review_id and review_text'') \<and>
   map processing_status
     (reviews (snd (analyze_sentiment_handler 0 sample_pending_state ''POST''
                      (Some (Some 10, Some [])))))
     = [Pending]"
  by code_simp

text \<open>
  Claim C6, amended. When the review text is missing or empty, the classification handler
  rejects the request with status 400 and the message
  \<open>Missing required fields: review_id and review_text\<close>, and leaves the state, the
  processing status of the review included, as it was.
\<close>

theorem empty_text_rejected_review_untouched:
  assumes "req_method \<noteq> ''OPTIONS''" and "review_text_opt = None \<or> review_text_opt = Some []"
  shows "analyze_sentiment_handler rnd st req_method (Some (rid, review_text_opt))
           = ((400, Error ''Missing required fields: review_id and review_text''), st)"
  using assms by (auto simp: analyze_sentiment_handler_def)

theorem empty_text_rejected_review_untouched_witness:
  "analyze_sentiment_handler 0 sample_pending_state ''POST'' (Some (Some 10, Some []))
     = ((400, Error ''Missing required fields: review_id and review_text''),
        sample_pending_state)"
  using empty_text_rejected_review_untouched[of "''POST''" "Some []" 0 sample_pending_state "Some 10"] by simp


text \<open>
  Claim C8, as stated: when some reviews of a pass fail to persist, the reported result
  identifies each failure. The loop prints the error on the console and goes on, and the
  answer carries the number of stored reviews only: a pass over the sample review and the
  review that the table refuses gets the same answer as a pass over the sample review
  alone, and the failure shows on the console only.
\<close>

theorem insert_failures_reported_counterexample:
  "fst (fetch_reviews_handler (\<lambda>placeId. Inr [sample_review, sample_bad_review])
          (\<lambda>businessId. Inr []) 0 0 sample_state ''POST'' (Some (Some 1, Some ''google'', None)))
     = (200, Fetched ''Reviews fetched successfully'' 1 ''google'' 1) \<and>
   console (snd (fetch_reviews_handler (\<lambda>placeId. Inr [sample_review, sample_bad_review])
          (\<lambda>businessId. Inr []) 0 0 sample_state ''POST'' (Some (Some 1, Some ''google'', None))))
     = [''Error inserting review:''] \<and>
   fst (fetch_reviews_handler (\<lambda>placeId. Inr [sample_review])
          (\<lambda>businessId. Inr []) 0 0 sample_state ''POST'' (Some (Some 1, Some ''google'', None)))
     = (200, Fetched ''Reviews fetched successfully'' 1 ''google'' 1) \<and>
   console (snd (fetch_reviews_handler (\<lambda>placeId. Inr [sample_review])
          (\<lambda>businessId. Inr []) 0 0 sample_state ''POST'' (Some (Some 1, Some ''google'', None))))
     = []"
  by code_simp

text \<open>
  Claim C8, amended. A review whose insert fails is logged on the console and skipped: the
  loop goes on with the rest of the list from the same store. The reported result of a pass
  is the message \<open>Reviews fetched successfully\<close> with the number of rows the pass added to
  \<open>reviews\<close>; it does not mention the failures.
\<close>

theorem insert_failures_logged_not_reported:
  "(fst (fetch_reviews_handler fG fY now nu st req_method req_body) = (200, Fetched msg n p' b')
      \<longrightarrow>
      msg = ''Reviews fetched successfully'' \<and>
      length (reviews (snd (fetch_reviews_handler fG fY now nu st req_method req_body)))
        = length (reviews st) + n) \<and>
   (select_review st b p (platform_review_id r) = None \<and>
    insert_review st b p r False Pending = Inl e \<longrightarrow>
      processAndStoreReviews st b p (r # revs)
        = processAndStoreReviews
            (st\<lparr> console := console st @ [''Error inserting review:''] \<rparr>) b p revs)"
proof -
  have a: "msg = ''Reviews fetched successfully'' \<and>
      length (reviews (snd (fetch_reviews_handler fG fY now nu st req_method req_body)))
        = length (reviews st) + n"
    if f: "fst (fetch_reviews_handler fG fY now nu st req_method req_body)
             = (200, Fetched msg n p' b')"
  proof -
    from f obtain force bz revs' where
      m: "req_method \<noteq> ''OPTIONS''" and rb: "req_body = Some (Some b', Some p', force)" and
      pne: "p' \<noteq> []" and
      sb: "select_business st b' = Some bz" and nf: "\<not> is_fresh now force bz" and
      fr: "fetch_for fG fY p' bz = Inr revs'"
      by (rule handler_Fetched_inv)
    note h = handler_fetched[OF m sb nf fr pne, of nu]
    from f have "msg = ''Reviews fetched successfully''"
      and n: "n = length (fst (processAndStoreReviews st b' p' revs'))"
      unfolding rb h by simp_all
    moreover have "length (reviews (snd (fetch_reviews_handler fG fY now nu st req_method req_body)))
        = length (reviews st) + n"
      unfolding rb h n
      using loop_length[of st b' p' revs' "[]"]
      by (simp add: reviews_update_business processAndStoreReviews_def)
    ultimately show ?thesis by simp
  qed
  have b: "processAndStoreReviews st b p (r # revs)
        = processAndStoreReviews
            (st\<lparr> console := console st @ [''Error inserting review:''] \<rparr>) b p revs"
    if "select_review st b p (platform_review_id r) = None"
       "insert_review st b p r False Pending = Inl e"
    using that by (simp add: processAndStoreReviews_def)
  from a b show ?thesis by blast
qed

theorem insert_failures_logged_not_reported_witness:
  "select_review sample_state 1 ''google'' (platform_review_id sample_bad_review) = None \<and>
   insert_review sample_state 1 ''google'' sample_bad_review False Pending = Inl CheckViolation \<and>
   processAndStoreReviews sample_state 1 ''google'' [sample_bad_review, sample_review]
     = processAndStoreReviews
         (sample_state\<lparr> console := console sample_state @ [''Error inserting review:''] \<rparr>)
         1 ''google'' [sample_review] \<and>
   fst (fetch_reviews_handler (\<lambda>placeId. Inr [sample_bad_review, sample_review])
          (\<lambda>businessId. Inr []) 0 0 sample_state ''POST'' (Some (Some 1, Some ''google'', None)))
     = (200, Fetched ''Reviews fetched successfully'' 1 ''google'' 1) \<and>
   length (reviews (snd (fetch_reviews_handler (\<lambda>placeId. Inr [sample_bad_review, sample_review])
          (\<lambda>businessId. Inr []) 0 0 sample_state ''POST'' (Some (Some 1, Some ''google'', None)))))
     = 1"
proof -
  have h: "select_review sample_state 1 ''google'' (platform_review_id sample_bad_review) = None"
          "insert_review sample_state 1 ''google'' sample_bad_review False Pending
             = Inl CheckViolation"
    by (simp_all add: select_review_def reviews_with_key_def insert_review_def sample_state_def
                      sample_bad_review_def sample_review_def)
  have f: "fst (fetch_reviews_handler (\<lambda>placeId. Inr [sample_bad_review, sample_review])
          (\<lambda>businessId. Inr []) 0 0 sample_state ''POST'' (Some (Some 1, Some ''google'', None)))
     = (200, Fetched ''Reviews fetched successfully'' 1 ''google'' 1)"
    by code_simp
  have r0: "length (reviews sample_state) = 0"
    by (simp add: sample_state_def)
  note t1 = insert_failures_logged_not_reported
      [where st = sample_state and b = 1 and p = "''google''" and r = sample_bad_review
         and e = CheckViolation and revs = "[sample_review]"]
  note t2 = insert_failures_logged_not_reported
      [where st = sample_state and fG = "\<lambda>placeId. Inr [sample_bad_review, sample_review]"
         and fY = "\<lambda>businessId. Inr []" and now = 0 and nu = 0 and req_method = "''POST''"
         and req_body = "Some (Some 1, Some ''google'', None)"
         and msg = "''Reviews fetched successfully''" and n = 1 and p' = "''google''" and b' = 1]
  from t2 f r0 have "length (reviews (snd (fetch_reviews_handler
          (\<lambda>placeId. Inr [sample_bad_review, sample_review])
          (\<lambda>businessId. Inr []) 0 0 sample_state ''POST'' (Some (Some 1, Some ''google'', None)))))
     = 1"
    by simp
  with t1 h f show ?thesis by blast
qed

end
